theory Spec2Isabelle
  imports Complex_Main
begin

section \<open>The sliding-window rate limiter (rate\_limiter.py)\<close>

text \<open>
  \<^verbatim>\<open>time.time()\<close> returns a float number of seconds. Timestamps are modelled as
  real numbers: the limiter only compares, subtracts and truncates them, and the
  rounding of floating-point subtraction is not modelled. Every function that reads
  the clock takes the reading as its first argument \<open>now\<close>.
\<close>

type_synonym timestamp = real

text \<open>
  The class \<^verbatim>\<open>RateLimiter\<close>: two configuration fields and the
  \<^verbatim>\<open>defaultdict(deque)\<close> from keys to deques of timestamps (oldest first).
  The dictionary is a partial map, so that the keys it holds are visible.
\<close>

record RateLimiter =
  max_requests :: int
  time_window :: int
  requests :: "string \<rightharpoonup> timestamp list"

text \<open>
  \<^verbatim>\<open>__init__(self, max_requests: int = 10, time_window: int = 60)\<close>: an argument
  that the caller leaves out is \<open>None\<close> here and takes the default of the signature.
\<close>

definition RateLimiter_init :: "int option \<Rightarrow> int option \<Rightarrow> RateLimiter" where
  "RateLimiter_init mr tw =
     \<lparr> max_requests = (case mr of None \<Rightarrow> 10 | Some m \<Rightarrow> m),
       time_window = (case tw of None \<Rightarrow> 60 | Some w \<Rightarrow> w),
       requests = Map.empty \<rparr>"

text \<open>The module-level instance: \<^verbatim>\<open>RateLimiter(max_requests=5, time_window=60)\<close>.\<close>

definition rate_limiter :: RateLimiter where
  "rate_limiter = RateLimiter_init (Some 5) (Some 60)"

text \<open>
  \<^verbatim>\<open>self.requests[key]\<close> on a \<^verbatim>\<open>defaultdict(deque)\<close>: a missing key is
  inserted with an empty deque, which is then returned.
\<close>

definition dd_getitem ::
  "(string \<rightharpoonup> timestamp list) \<Rightarrow> string \<Rightarrow> timestamp list \<times> (string \<rightharpoonup> timestamp list)" where
  "dd_getitem m key = (case m key of None \<Rightarrow> ([], m(key \<mapsto> [])) | Some q \<Rightarrow> (q, m))"

text \<open>
  The loop
  \<^verbatim>\<open>while request_times and request_times[0] <= now - self.time_window: request_times.popleft()\<close>
  with \<open>c\<close> standing for \<^verbatim>\<open>now - self.time_window\<close>.
\<close>

fun popleft_while :: "real \<Rightarrow> timestamp list \<Rightarrow> timestamp list" where
  "popleft_while c [] = []"
| "popleft_while c (t # ts) = (if t \<le> c then popleft_while c ts else t # ts)"

text \<open>
  \<^verbatim>\<open>is_allowed(self, key)\<close>. The deque is mutated in place, so the purged (and
  possibly extended) deque is what the dictionary holds afterwards. A caller that
  leaves \<^verbatim>\<open>key\<close> out passes the string \<^verbatim>\<open>"default"\<close>; here the key is always given.
\<close>

definition is_allowed :: "timestamp \<Rightarrow> string \<Rightarrow> RateLimiter \<Rightarrow> bool \<times> RateLimiter" where
  "is_allowed now key rl =
     (let (request_times0, m) = dd_getitem (requests rl) key;
          request_times = popleft_while (now - real_of_int (time_window rl)) request_times0
      in if int (length request_times) < max_requests rl
         then (True, rl\<lparr>requests := m(key \<mapsto> request_times @ [now])\<rparr>)
         else (False, rl\<lparr>requests := m(key \<mapsto> request_times)\<rparr>))"

text \<open>Python's \<^verbatim>\<open>int(x)\<close> on a float truncates towards zero.\<close>

definition py_int :: "real \<Rightarrow> int" where
  "py_int x = (if 0 \<le> x then \<lfloor>x\<rfloor> else \<lceil>x\<rceil>)"

text \<open>
  \<^verbatim>\<open>get_retry_after(self, key)\<close>. The first \<^verbatim>\<open>self.requests[key]\<close> may insert
  the key; the later ones find it.
\<close>

definition get_retry_after :: "timestamp \<Rightarrow> string \<Rightarrow> RateLimiter \<Rightarrow> int \<times> RateLimiter" where
  "get_retry_after now key rl =
     (let (q, m) = dd_getitem (requests rl) key;
          rl' = rl\<lparr>requests := m\<rparr>
      in case q of
           [] \<Rightarrow> (0, rl')
         | oldest_request # _ \<Rightarrow>
             (max 0 (py_int (real_of_int (time_window rl) - (now - oldest_request))), rl'))"

text \<open>The deque of a key as a reader sees it: empty when the key is absent.\<close>

definition window :: "RateLimiter \<Rightarrow> string \<Rightarrow> timestamp list" where
  "window rl key = (case requests rl key of None \<Rightarrow> [] | Some q \<Rightarrow> q)"

text \<open>
  A sequence of admission checks, each with its clock reading and key, run from left
  to right on one limiter: the verdicts and the final limiter.
\<close>

fun run_checks :: "RateLimiter \<Rightarrow> (timestamp \<times> string) list \<Rightarrow> bool list \<times> RateLimiter" where
  "run_checks rl [] = ([], rl)"
| "run_checks rl ((now, key) # es) =
     (let (ok, rl1) = is_allowed now key rl;
          (oks, rl2) = run_checks rl1 es
      in (ok # oks, rl2))"

text \<open>The timestamps of the checks of such a sequence that were admitted for key \<open>k\<close>.\<close>

fun admitted :: "string \<Rightarrow> RateLimiter \<Rightarrow> (timestamp \<times> string) list \<Rightarrow> timestamp list" where
  "admitted k rl [] = []"
| "admitted k rl ((now, key) # es) =
     (let (ok, rl1) = is_allowed now key rl
      in if ok \<and> key = k then now # admitted k rl1 es else admitted k rl1 es)"

section \<open>The HTTP client (gemini\_client.py)\<close>

text \<open>
  A decoded JSON value, as \<^verbatim>\<open>response.json()\<close> returns it: \<^verbatim>\<open>None\<close>, a bool,
  a number, a string, a list or a dict. A dict is an association list whose first
  binding of a key is the one that counts. Integers stand for all numbers: the code
  below treats every number alike.

  A Python \<^verbatim>\<open>str\<close> is a sequence of Unicode code points. It is represented by the
  bytes of its UTF-8 encoding: a \<open>char\<close> is one byte, a code point up to U+007F is one
  \<open>char\<close> and every other code point is a leading byte followed by one to three
  continuation bytes (\<open>0x80\<close> to \<open>0xBF\<close>). U+00A0 is \<open>[CHR 0xC2, CHR 0xA0]\<close>, not
  \<open>[CHR 0xA0]\<close>, which encodes no string.
\<close>

datatype json =
  JNull
| JBool bool
| JNum int
| JStr string
| JArr "json list"
| JObj "(string \<times> json) list"

definition is_continuation :: "char \<Rightarrow> bool" where
  "is_continuation c \<longleftrightarrow> 0x80 \<le> (of_char c :: nat) \<and> (of_char c :: nat) < 0xC0"

text \<open>The number of bytes of the code point that the leading byte \<open>c\<close> starts; 0 for a
  byte that starts none.\<close>

definition utf8_width :: "char \<Rightarrow> nat" where
  "utf8_width c =
     (let n = (of_char c :: nat)
      in if n < 0x80 then 1
         else if 0xC0 \<le> n \<and> n < 0xE0 then 2
         else if 0xE0 \<le> n \<and> n < 0xF0 then 3
         else if 0xF0 \<le> n \<and> n < 0xF8 then 4
         else 0)"

text \<open>
  What every encoding of a \<^verbatim>\<open>str\<close> satisfies: each leading byte is followed by as
  many continuation bytes as it announces, and no continuation byte stands alone.
\<close>

function utf8 :: "string \<Rightarrow> bool" where
  "utf8 [] = True"
| "utf8 (c # cs) =
     (0 < utf8_width c \<and> utf8_width c - 1 \<le> length cs \<and>
      list_all is_continuation (take (utf8_width c - 1) cs) \<and>
      utf8 (drop (utf8_width c - 1) cs))"
  by pat_completeness auto
termination
  by (relation "measure length") auto

text \<open>
  The exceptions that can arise. The handlers of the client tell
  \<^verbatim>\<open>requests.exceptions.RequestException\<close> from every other exception.
\<close>

datatype exn = RequestException | KeyError | IndexError | TypeError | AttributeError | OtherError

text \<open>
  What \<^verbatim>\<open>requests.post\<close> hands back: the status code, the outcome of
  \<^verbatim>\<open>response.json()\<close> (the decoded body, or the exception it raises on a body
  that is not JSON) and \<^verbatim>\<open>response.text\<close>.
\<close>

record response =
  status_code :: int
  json_result :: "exn + json"
  body_text :: string

text \<open>\<^verbatim>\<open>requests.post\<close> either returns a response or raises (timeout, connection failure).\<close>

datatype post_result = Returned response | Raised exn

fun py_startswith :: "string \<Rightarrow> string \<Rightarrow> bool" where
  "py_startswith s [] = True"
| "py_startswith [] (p # ps) = False"
| "py_startswith (c # cs) (p # ps) = (c = p \<and> py_startswith cs ps)"

text \<open>\<^verbatim>\<open>needle in haystack\<close> on two strings.\<close>

fun py_str_contains :: "string \<Rightarrow> string \<Rightarrow> bool" where
  "py_str_contains needle [] = (needle = [])"
| "py_str_contains needle (c # cs) =
     (py_startswith (c # cs) needle \<or> py_str_contains needle cs)"

text \<open>
  \<^verbatim>\<open>key in v\<close> for a string \<open>key\<close>: key membership on a dict, element membership
  on a list, substring on a string, \<^verbatim>\<open>TypeError\<close> on anything else.
\<close>

definition py_in :: "string \<Rightarrow> json \<Rightarrow> exn + bool" where
  "py_in key v =
     (case v of
        JObj kvs \<Rightarrow> Inr (map_of kvs key \<noteq> None)
      | JArr xs \<Rightarrow> Inr (JStr key \<in> set xs)
      | JStr s \<Rightarrow> Inr (py_str_contains key s)
      | _ \<Rightarrow> Inl TypeError)"

text \<open>\<^verbatim>\<open>v[key]\<close> for a string \<open>key\<close>.\<close>

definition py_getitem :: "json \<Rightarrow> string \<Rightarrow> exn + json" where
  "py_getitem v key =
     (case v of
        JObj kvs \<Rightarrow> (case map_of kvs key of None \<Rightarrow> Inl KeyError | Some x \<Rightarrow> Inr x)
      | _ \<Rightarrow> Inl TypeError)"

text \<open>\<^verbatim>\<open>len(v)\<close>. The length of a string is the number of its code points.\<close>

definition py_len :: "json \<Rightarrow> exn + nat" where
  "py_len v =
     (case v of
        JObj kvs \<Rightarrow> Inr (length (remdups (map fst kvs)))
      | JArr xs \<Rightarrow> Inr (length xs)
      | JStr s \<Rightarrow> Inr (length (filter (\<lambda>c. \<not> is_continuation c) s))
      | _ \<Rightarrow> Inl TypeError)"

text \<open>
  \<^verbatim>\<open>v[0]\<close>. The keys of a decoded JSON object are strings, so a dict has no key 0.
  The first item of a string is its first code point, as a string.
\<close>

definition py_getitem0 :: "json \<Rightarrow> exn + json" where
  "py_getitem0 v =
     (case v of
        JArr xs \<Rightarrow> (case xs of [] \<Rightarrow> Inl IndexError | x # _ \<Rightarrow> Inr x)
      | JStr s \<Rightarrow>
          (case s of
             [] \<Rightarrow> Inl IndexError
           | c # cs \<Rightarrow> Inr (JStr (c # takeWhile is_continuation cs)))
      | JObj kvs \<Rightarrow> Inl KeyError
      | _ \<Rightarrow> Inl TypeError)"

text \<open>\<^verbatim>\<open>v.get(key, default)\<close>: only a dict has the method.\<close>

definition py_get :: "json \<Rightarrow> string \<Rightarrow> json \<Rightarrow> exn + json" where
  "py_get v key dflt =
     (case v of
        JObj kvs \<Rightarrow> Inr (case map_of kvs key of None \<Rightarrow> dflt | Some x \<Rightarrow> x)
      | _ \<Rightarrow> Inl AttributeError)"

text \<open>Sequencing of computations that may raise.\<close>

definition bind_exn :: "exn + 'a \<Rightarrow> ('a \<Rightarrow> exn + 'b) \<Rightarrow> exn + 'b" where
  "bind_exn r f = (case r of Inl e \<Rightarrow> Inl e | Inr x \<Rightarrow> f x)"

text \<open>
  The branch for status 200 of \<^verbatim>\<open>generate_content\<close>, from \<^verbatim>\<open>data = response.json()\<close>
  on. Where neither \<^verbatim>\<open>if\<close> holds, control leaves the \<^verbatim>\<open>try\<close> and the function
  ends without a \<^verbatim>\<open>return\<close>: the result is \<^verbatim>\<open>None\<close>. \<^verbatim>\<open>and\<close> evaluates its
  right operand only when the left one is true.
\<close>

definition extract_text :: "json \<Rightarrow> exn + json" where
  "extract_text data =
     bind_exn (py_in ''candidates'' data) (\<lambda>has_candidates.
       if \<not> has_candidates then Inr JNull
       else bind_exn (py_getitem data ''candidates'') (\<lambda>candidates.
         bind_exn (py_len candidates) (\<lambda>n.
           if \<not> n > 0 then Inr JNull
           else bind_exn (py_getitem0 candidates) (\<lambda>candidate.
             bind_exn (py_in ''content'' candidate) (\<lambda>has_content.
               if \<not> has_content then Inr JNull
               else bind_exn (py_getitem candidate ''content'') (\<lambda>content.
                 bind_exn (py_in ''parts'' content) (\<lambda>has_parts.
                   if \<not> has_parts then Inr JNull
                   else bind_exn (py_getitem content ''parts'') (\<lambda>parts.
                     bind_exn (py_getitem0 parts) (\<lambda>part.
                       py_getitem part ''text'')))))))))"

text \<open>
  The argument of the \<^verbatim>\<open>print\<close> of the branch for status 429:
  \<^verbatim>\<open>error_data.get('error', {}).get('message', 'Unknown error')\<close>. The printed line
  is not modelled, the exceptions of the two \<^verbatim>\<open>get\<close> calls are.
\<close>

definition quota_message :: "json \<Rightarrow> exn + json" where
  "quota_message error_data =
     bind_exn (py_get error_data ''error'' (JObj [])) (\<lambda>err.
       py_get err ''message'' (JStr ''Unknown error''))"

definition msg_quota :: string where
  "msg_quota = ''I'm sorry, I've reached my daily limit. Please try again later.''"

definition msg_api_error :: string where
  "msg_api_error = ''I'm sorry, I'm having trouble processing your request right now.''"

definition msg_request_error :: string where
  "msg_request_error = ''I'm sorry, I'm having trouble connecting to the AI service.''"

definition msg_unexpected :: string where
  "msg_unexpected = ''I'm sorry, something went wrong. Please try again.''"

text \<open>The body of the \<^verbatim>\<open>try\<close> block of \<^verbatim>\<open>generate_content\<close>, given the outcome of the post.\<close>

definition generate_content_try :: "post_result \<Rightarrow> exn + json" where
  "generate_content_try r =
     (case r of
        Raised e \<Rightarrow> Inl e
      | Returned resp \<Rightarrow>
          if status_code resp = 200 then bind_exn (json_result resp) extract_text
          else if status_code resp = 429 then
            bind_exn (json_result resp) (\<lambda>error_data.
              bind_exn (quota_message error_data) (\<lambda>_. Inr (JStr msg_quota)))
          else Inr (JStr msg_api_error))"

text \<open>
  \<^verbatim>\<open>generate_content\<close> with its two handlers. The value is what the Python function
  returns: \<open>JNull\<close> is \<^verbatim>\<open>None\<close>.
\<close>

definition generate_content :: "post_result \<Rightarrow> json" where
  "generate_content r =
     (case generate_content_try r of
        Inr v \<Rightarrow> v
      | Inl e \<Rightarrow> if e = RequestException then JStr msg_request_error else JStr msg_unexpected)"

section \<open>The chat route (app\_alternative.py)\<close>

text \<open>
  What a call of \<^verbatim>\<open>chat\<close> can change: the module-level limiter of rate\_limiter.py,
  the prompts posted to the external API so far (newest first) and the database
  connection of the module \<^verbatim>\<open>models\<close>, which is \<open>None\<close> when there is none.
\<close>

record 'db world =
  limiter :: RateLimiter
  posted :: "string list"
  db_connection :: "'db option"

text \<open>
  The code points for which \<^verbatim>\<open>str.isspace()\<close> holds, which \<^verbatim>\<open>str.strip()\<close> removes at
  both ends, each as its UTF-8 bytes: U+0009 to U+000D, U+001C to U+0020, U+0085,
  U+00A0, U+1680, U+2000 to U+200A, U+2028, U+2029, U+202F, U+205F and U+3000.
\<close>

definition py_whitespace :: "string list" where
  "py_whitespace =
     [[CHR 0x09], [CHR 0x0A], [CHR 0x0B], [CHR 0x0C], [CHR 0x0D],
      [CHR 0x1C], [CHR 0x1D], [CHR 0x1E], [CHR 0x1F], [CHR 0x20],
      [CHR 0xC2, CHR 0x85], [CHR 0xC2, CHR 0xA0],
      [CHR 0xE1, CHR 0x9A, CHR 0x80],
      [CHR 0xE2, CHR 0x80, CHR 0x80], [CHR 0xE2, CHR 0x80, CHR 0x81],
      [CHR 0xE2, CHR 0x80, CHR 0x82], [CHR 0xE2, CHR 0x80, CHR 0x83],
      [CHR 0xE2, CHR 0x80, CHR 0x84], [CHR 0xE2, CHR 0x80, CHR 0x85],
      [CHR 0xE2, CHR 0x80, CHR 0x86], [CHR 0xE2, CHR 0x80, CHR 0x87],
      [CHR 0xE2, CHR 0x80, CHR 0x88], [CHR 0xE2, CHR 0x80, CHR 0x89],
      [CHR 0xE2, CHR 0x80, CHR 0x8A],
      [CHR 0xE2, CHR 0x80, CHR 0xA8], [CHR 0xE2, CHR 0x80, CHR 0xA9],
      [CHR 0xE2, CHR 0x80, CHR 0xAF],
      [CHR 0xE2, CHR 0x81, CHR 0x9F],
      [CHR 0xE3, CHR 0x80, CHR 0x80]]"

text \<open>
  The loop that skips whitespace at the start of a string: as long as the string
  starts with one of the byte sequences \<open>ws\<close>, that sequence is dropped.
\<close>

function drop_leading :: "string list \<Rightarrow> string \<Rightarrow> string" where
  "drop_leading ws s =
     (case find (\<lambda>w. w \<noteq> [] \<and> py_startswith s w) ws of
        None \<Rightarrow> s
      | Some w \<Rightarrow> drop_leading ws (drop (length w) s))"
  by pat_completeness auto
termination
proof (relation "measure (\<lambda>(ws, s). length s)")
  show "wf (measure (\<lambda>(ws, s). length s))" by simp
next
  fix ws :: "string list" and s w :: string
  assume "find (\<lambda>w. w \<noteq> [] \<and> py_startswith s w) ws = Some w"
  then have w: "w \<noteq> []" and "py_startswith s w" by (auto simp: find_Some_iff)
  then have "s \<noteq> []" by (cases w; cases s) auto
  with w show "((ws, drop (length w) s), (ws, s)) \<in> measure (\<lambda>(ws, s). length s)"
    by simp
qed

definition lstrip :: "string \<Rightarrow> string" where
  "lstrip s = drop_leading py_whitespace s"

text \<open>At the end of the string the same loop runs backwards.\<close>

definition rstrip :: "string \<Rightarrow> string" where
  "rstrip s = rev (drop_leading (map rev py_whitespace) (rev s))"

text \<open>\<^verbatim>\<open>v.strip()\<close>: only a string has the method.\<close>

definition py_strip :: "json \<Rightarrow> exn + string" where
  "py_strip v =
     (case v of
        JStr s \<Rightarrow> Inr (rstrip (lstrip s))
      | _ \<Rightarrow> Inl AttributeError)"

definition make_prompt :: "string \<Rightarrow> string" where
  "make_prompt user_message =
     ''You are a helpful AI assistant. Please respond to the following message in a friendly and informative way:''
     @ [CHR 0x0A, CHR 0x0A] @ ''User: '' @ user_message @ [CHR 0x0A, CHR 0x0A]
     @ ''Please keep your response concise and helpful.''"

definition msg_no_client :: string where
  "msg_no_client = ''AI service is not available. Please check the API key configuration.''"

text \<open>
  The route \<^verbatim>\<open>chat\<close>. Its surroundings are parameters: \<open>client\<close> is
  \<^verbatim>\<open>app.gemini_client\<close>, given by what a post of a prompt results in (\<open>None\<close> when
  no API key is configured); \<open>save_message\<close> is \<^verbatim>\<open>db.save_message\<close> of the module
  \<^verbatim>\<open>models\<close>; \<open>iso_now\<close> is \<^verbatim>\<open>datetime.now().isoformat()\<close>; \<open>body\<close> is the
  outcome of \<^verbatim>\<open>request.get_json()\<close>. The result is the status code with the
  JSON body, and the world afterwards. Any exception outside the two inner
  \<^verbatim>\<open>try\<close> blocks ends in the answer 500. \<^verbatim>\<open>generate_content\<close> handles every
  exception itself, so the handler around its call is never entered.
\<close>

definition chat ::
  "(string \<Rightarrow> post_result) option \<Rightarrow> (string \<Rightarrow> json \<Rightarrow> 'db \<Rightarrow> exn + 'db) \<Rightarrow> string \<Rightarrow>
   exn + json \<Rightarrow> 'db world \<Rightarrow> (int \<times> json) \<times> 'db world" where
  "chat client save_message iso_now body w =
     (case bind_exn body (\<lambda>data. bind_exn (py_get data ''message'' (JStr [])) py_strip) of
        Inl e \<Rightarrow> ((500, JObj [(''error'', JStr ''Internal server error'')]), w)
      | Inr user_message \<Rightarrow>
          if user_message = [] then
            ((400, JObj [(''error'', JStr ''Message cannot be empty'')]), w)
          else
            let (ai_response, w1) =
                  (case client of
                     Some post \<Rightarrow>
                       (generate_content (post (make_prompt user_message)),
                        w\<lparr>posted := make_prompt user_message # posted w\<rparr>)
                   | None \<Rightarrow> (JStr msg_no_client, w));
                w2 = (case db_connection w1 of
                        None \<Rightarrow> w1
                      | Some conn \<Rightarrow>
                          (case save_message user_message ai_response conn of
                             Inl e \<Rightarrow> w1
                           | Inr conn' \<Rightarrow> w1\<lparr>db_connection := Some conn'\<rparr>))
            in ((200, JObj [(''user_message'', JStr user_message),
                            (''ai_response'', ai_response),
                            (''timestamp'', JStr iso_now)]), w2))"

section \<open>Notions used in the proofs\<close>

text \<open>
  \<open>tracks W \<tau> q A\<close>: up to time \<open>\<tau>\<close> the admitted timestamps of a key are \<open>A\<close>, in
  order, and its deque \<open>q\<close> holds those of them that are younger than some bound not
  later than \<open>\<tau> - W\<close> (the bound of the last purge).
\<close>

definition tracks :: "real \<Rightarrow> real \<Rightarrow> timestamp list \<Rightarrow> timestamp list \<Rightarrow> bool" where
  "tracks W \<tau> q A \<longleftrightarrow>
     sorted A \<and> (\<forall>x \<in> set A. x \<le> \<tau>) \<and> (\<exists>c. c \<le> \<tau> - W \<and> q = filter (\<lambda>x. c < x) A)"

text \<open>
  \<open>within_limit W m A\<close>: no interval \<open>(t - W, t]\<close> holds more than \<open>m\<close> of the
  timestamps \<open>A\<close>.
\<close>

definition within_limit :: "real \<Rightarrow> int \<Rightarrow> timestamp list \<Rightarrow> bool" where
  "within_limit W m A \<longleftrightarrow> (\<forall>t. int (length (filter (\<lambda>x. t - W < x \<and> x \<le> t) A)) \<le> m)"

text \<open>\<open>stamps_le \<tau> rl\<close>: no deque of the limiter holds a timestamp later than \<open>\<tau>\<close>.\<close>

definition stamps_le :: "real \<Rightarrow> RateLimiter \<Rightarrow> bool" where
  "stamps_le \<tau> rl \<longleftrightarrow> (\<forall>k. \<forall>t \<in> set (window rl k). t \<le> \<tau>)"

section \<open>Scenarios\<close>

text \<open>Checks of one key \<open>k\<close> at the clock readings \<open>ts\<close>, in this order.\<close>

definition same_key :: "string \<Rightarrow> timestamp list \<Rightarrow> (timestamp \<times> string) list" where
  "same_key k ts = map (\<lambda>t. (t, k)) ts"

text \<open>
  A world in which the module-level limiter has just admitted five requests of the
  key \<^verbatim>\<open>"default"\<close> at time 0, so that it denies this key at time 1. Nothing has
  been posted and there is no database connection.
\<close>

definition full_world :: "unit world" where
  "full_world =
     \<lparr> limiter = snd (run_checks rate_limiter
          [(0, ''default''), (0, ''default''), (0, ''default''), (0, ''default''), (0, ''default'')]),
       posted = [], db_connection = None \<rparr>"

section \<open>Basic facts about the limiter\<close>

lemma is_allowed_max_requests [simp]: "max_requests (snd (is_allowed now key rl)) = max_requests rl"
  by (simp add: is_allowed_def Let_def split: prod.splits)

lemma is_allowed_time_window [simp]: "time_window (snd (is_allowed now key rl)) = time_window rl"
  by (simp add: is_allowed_def Let_def split: prod.splits)

lemma get_retry_after_max_requests [simp]:
  "max_requests (snd (get_retry_after now key rl)) = max_requests rl"
  by (simp add: get_retry_after_def Let_def split: prod.splits list.splits)

lemma get_retry_after_time_window [simp]:
  "time_window (snd (get_retry_after now key rl)) = time_window rl"
  by (simp add: get_retry_after_def Let_def split: prod.splits list.splits)

lemma dd_getitem_fst: "fst (dd_getitem m key) = (case m key of None \<Rightarrow> [] | Some q \<Rightarrow> q)"
  by (simp add: dd_getitem_def split: option.splits)

lemma dd_getitem_snd_same: "snd (dd_getitem m key) key = Some (fst (dd_getitem m key))"
  by (simp add: dd_getitem_def split: option.splits)

lemma dd_getitem_snd_other: "k \<noteq> key \<Longrightarrow> snd (dd_getitem m key) k = m k"
  by (simp add: dd_getitem_def split: option.splits)

lemma window_is_allowed_same:
  "window (snd (is_allowed now key rl)) key =
     (let q = popleft_while (now - real_of_int (time_window rl)) (window rl key)
      in if int (length q) < max_requests rl then q @ [now] else q)"
  by (simp add: is_allowed_def window_def dd_getitem_def Let_def split: option.splits)

lemma fst_is_allowed:
  "fst (is_allowed now key rl) \<longleftrightarrow>
     int (length (popleft_while (now - real_of_int (time_window rl)) (window rl key))) < max_requests rl"
  by (simp add: is_allowed_def window_def dd_getitem_def Let_def split: option.splits)

lemma window_is_allowed_other:
  "k \<noteq> key \<Longrightarrow> window (snd (is_allowed now key rl)) k = window rl k"
  by (simp add: is_allowed_def window_def dd_getitem_def Let_def split: option.splits)

lemma window_get_retry_after: "window (snd (get_retry_after now key rl)) k = window rl k"
  by (simp add: get_retry_after_def window_def dd_getitem_def Let_def split: option.splits list.splits)

lemma fst_get_retry_after:
  "fst (get_retry_after now key rl) =
     (case window rl key of
        [] \<Rightarrow> 0
      | t0 # _ \<Rightarrow> max 0 (py_int (real_of_int (time_window rl) - (now - t0))))"
  by (simp add: get_retry_after_def window_def dd_getitem_def Let_def split: option.splits list.splits)

lemma popleft_while_sorted: "sorted q \<Longrightarrow> popleft_while c q = filter (\<lambda>x. c < x) q"
proof (induction q)
  case Nil
  then show ?case by simp
next
  case (Cons t ts)
  show ?case
  proof (cases "t \<le> c")
    case True
    with Cons show ?thesis by simp
  next
    case False
    with Cons.prems have "\<forall>x \<in> set ts. c < x" by auto
    then have "filter (\<lambda>x. c < x) ts = ts" by simp
    with False show ?thesis by simp
  qed
qed

lemma popleft_while_all_old: "\<forall>x \<in> set q. x \<le> c \<Longrightarrow> popleft_while c q = []"
  by (induction q) simp_all

lemma popleft_while_all_young: "\<forall>x \<in> set q. c < x \<Longrightarrow> popleft_while c q = q"
  by (cases q) simp_all

lemma set_popleft_while: "set (popleft_while c q) \<subseteq> set q"
  by (induction q) auto

lemma length_filter_mono:
  "(\<And>x. x \<in> set xs \<Longrightarrow> P x \<Longrightarrow> Q x) \<Longrightarrow> length (filter P xs) \<le> length (filter Q xs)"
  by (induction xs) auto

lemma tracks_later:
  assumes "tracks W \<tau> q A" and "\<tau> \<le> now"
  shows "tracks W now q A"
proof -
  from assms(1) obtain c where c: "c \<le> \<tau> - W" "q = filter (\<lambda>x. c < x) A"
    and s: "sorted A" and le: "\<forall>x \<in> set A. x \<le> \<tau>"
    unfolding tracks_def by blast
  have "c \<le> now - W" using c(1) assms(2) by simp
  moreover have "\<forall>x \<in> set A. x \<le> now" using le assms(2) by force
  ultimately show ?thesis using c(2) s unfolding tracks_def by blast
qed

lemma tracks_purge:
  assumes "tracks W \<tau> q A" and "\<tau> \<le> now"
  shows "popleft_while (now - W) q = filter (\<lambda>x. now - W < x) A"
proof -
  from assms(1) obtain c where c: "c \<le> \<tau> - W" "q = filter (\<lambda>x. c < x) A" and s: "sorted A"
    unfolding tracks_def by blast
  have "sorted q" using c(2) s by (simp add: sorted_wrt_filter)
  then have "popleft_while (now - W) q = filter (\<lambda>x. now - W < x) q"
    by (rule popleft_while_sorted)
  also have "\<dots> = filter (\<lambda>x. c < x \<and> now - W < x) A" by (simp add: c(2))
  also have "\<dots> = filter (\<lambda>x. now - W < x) A"
    using c(1) assms(2) by (intro filter_cong) auto
  finally show ?thesis .
qed

lemma tracks_denied:
  assumes "tracks W \<tau> q A" and "\<tau> \<le> now"
  shows "tracks W now (popleft_while (now - W) q) A"
proof -
  have "sorted A" and "\<forall>x \<in> set A. x \<le> now"
    using tracks_later [OF assms] unfolding tracks_def by blast+
  moreover have "now - W \<le> now - W" by simp
  ultimately show ?thesis using tracks_purge [OF assms] unfolding tracks_def by blast
qed

lemma tracks_admitted:
  assumes "tracks W \<tau> q A" and "\<tau> \<le> now" and "0 < W"
  shows "tracks W now (popleft_while (now - W) q @ [now]) (A @ [now])"
proof -
  have le: "\<forall>x \<in> set A. x \<le> now" using assms(1,2) unfolding tracks_def by force
  have "sorted (A @ [now])" using assms(1) le unfolding tracks_def by (simp add: sorted_append)
  moreover have "\<forall>x \<in> set (A @ [now]). x \<le> now" using le by simp
  moreover have "popleft_while (now - W) q @ [now] = filter (\<lambda>x. now - W < x) (A @ [now])"
    using tracks_purge [OF assms(1,2)] assms(3) by simp
  ultimately show ?thesis unfolding tracks_def by blast
qed

lemma within_limit_snoc:
  assumes "within_limit W m A" and "\<forall>x \<in> set A. x \<le> now"
    and "int (length (filter (\<lambda>x. now - W < x) A)) < m"
  shows "within_limit W m (A @ [now])"
  unfolding within_limit_def
proof
  fix t
  show "int (length (filter (\<lambda>x. t - W < x \<and> x \<le> t) (A @ [now]))) \<le> m"
  proof (cases "now \<le> t")
    case True
    have "length (filter (\<lambda>x. t - W < x \<and> x \<le> t) A) \<le> length (filter (\<lambda>x. now - W < x) A)"
      using True by (intro length_filter_mono) auto
    then show ?thesis using assms(3) by simp
  next
    case False
    then show ?thesis using assms(1) unfolding within_limit_def by simp
  qed
qed

lemma admitted_within_limit:
  assumes "0 < real_of_int (time_window rl)"
    and "tracks (real_of_int (time_window rl)) \<tau> (window rl k) A"
    and "within_limit (real_of_int (time_window rl)) (max_requests rl) A"
    and "sorted (map fst es)" and "\<forall>e \<in> set es. \<tau> \<le> fst e"
  shows "within_limit (real_of_int (time_window rl)) (max_requests rl) (A @ admitted k rl es)"
  using assms
proof (induction es arbitrary: rl A \<tau>)
  case Nil
  then show ?case by simp
next
  case (Cons e es)
  obtain now key where e: "e = (now, key)" by (cases e)
  define rl1 where "rl1 = snd (is_allowed now key rl)"
  define W where "W = real_of_int (time_window rl)"
  have cfg: "time_window rl1 = time_window rl" "max_requests rl1 = max_requests rl"
    by (simp_all add: rl1_def)
  have tau: "\<tau> \<le> now" using Cons.prems(5) e by simp
  have srt: "sorted (map fst es)" and later: "\<forall>e' \<in> set es. now \<le> fst e'"
    using Cons.prems(4) e by auto
  have tr: "tracks W \<tau> (window rl k) A" using Cons.prems(2) by (simp add: W_def)
  have adm: "admitted k rl (e # es) =
      (if fst (is_allowed now key rl) \<and> key = k then now # admitted k rl1 es else admitted k rl1 es)"
    by (simp add: e rl1_def split: prod.splits)
  show ?case
  proof (cases "key = k")
    case False
    then have "window rl1 k = window rl k" by (simp add: rl1_def window_is_allowed_other)
    with tr tau have "tracks W now (window rl1 k) A" by (simp add: tracks_later)
    then have "within_limit (real_of_int (time_window rl1)) (max_requests rl1) (A @ admitted k rl1 es)"
      using Cons.prems(1,3) srt later cfg
      by (intro Cons.IH [where \<tau> = now]) (simp_all add: W_def)
    then show ?thesis using False adm cfg by simp
  next
    case True
    define q' where "q' = popleft_while (now - W) (window rl k)"
    have q': "q' = filter (\<lambda>x. now - W < x) A" unfolding q'_def using tr tau by (rule tracks_purge)
    show ?thesis
    proof (cases "int (length q') < max_requests rl")
      case yes: True
      then have ok: "fst (is_allowed now key rl)" and w1: "window rl1 k = q' @ [now]"
        using True by (simp_all add: fst_is_allowed rl1_def window_is_allowed_same q'_def W_def)
      have "tracks W now (window rl1 k) (A @ [now])"
        unfolding w1 q'_def using tr tau Cons.prems(1) by (intro tracks_admitted) (simp_all add: W_def)
      moreover have "within_limit W (max_requests rl) (A @ [now])"
      proof (rule within_limit_snoc)
        show "within_limit W (max_requests rl) A" using Cons.prems(3) by (simp add: W_def)
        show "\<forall>x \<in> set A. x \<le> now" using tr tau unfolding tracks_def by force
        show "int (length (filter (\<lambda>x. now - W < x) A)) < max_requests rl" using yes q' by simp
      qed
      ultimately have "within_limit (real_of_int (time_window rl1)) (max_requests rl1)
          ((A @ [now]) @ admitted k rl1 es)"
        using Cons.prems(1) srt later cfg
        by (intro Cons.IH [where \<tau> = now]) (simp_all add: W_def)
      then show ?thesis using True adm ok cfg by simp
    next
      case no: False
      then have ok: "\<not> fst (is_allowed now key rl)" and w1: "window rl1 k = q'"
        using True by (simp_all add: fst_is_allowed rl1_def window_is_allowed_same q'_def W_def)
      have "tracks W now (window rl1 k) A"
        unfolding w1 q'_def using tr tau by (rule tracks_denied)
      then have "within_limit (real_of_int (time_window rl1)) (max_requests rl1) (A @ admitted k rl1 es)"
        using Cons.prems(1,3) srt later cfg
        by (intro Cons.IH [where \<tau> = now]) (simp_all add: W_def)
      then show ?thesis using adm ok cfg by simp
    qed
  qed
qed

lemma py_int_nonneg: "0 \<le> x \<Longrightarrow> 0 \<le> py_int x"
  by (simp add: py_int_def)

lemma py_int_le: "x \<le> real_of_int n \<Longrightarrow> 0 \<le> n \<Longrightarrow> py_int x \<le> n"
  by (auto simp: py_int_def floor_le_iff ceiling_le_iff)

lemma py_int_mono: "x \<le> y \<Longrightarrow> py_int x \<le> py_int y"
proof -
  assume xy: "x \<le> y"
  show ?thesis
  proof (cases "0 \<le> x")
    case True
    then show ?thesis using xy by (simp add: py_int_def floor_mono)
  next
    case False
    show ?thesis
    proof (cases "0 \<le> y")
      case True
      have "\<lceil>x\<rceil> \<le> 0" using False by (simp add: ceiling_le_iff)
      moreover have "0 \<le> \<lfloor>y\<rfloor>" using True by simp
      ultimately have "\<lceil>x\<rceil> \<le> \<lfloor>y\<rfloor>" by linarith
      then show ?thesis using False True by (simp add: py_int_def)
    next
      case False2: False
      then show ?thesis using False xy by (simp add: py_int_def ceiling_mono)
    qed
  qed
qed

lemma py_int_pos_iff: "0 < py_int x \<longleftrightarrow> 1 \<le> x"
proof (cases "0 \<le> x")
  case True
  then show ?thesis by (simp add: py_int_def)
next
  case False
  then have "\<lceil>x\<rceil> \<le> 0" by (simp add: ceiling_le_iff)
  then show ?thesis using False by (simp add: py_int_def)
qed

lemma burst_run:
  assumes "window rl k = q"
    and "\<forall>s \<in> set (q @ ts). \<forall>t \<in> set ts. t - s < real_of_int (time_window rl)"
  shows "fst (run_checks rl (same_key k ts)) =
           replicate (min (nat (max_requests rl - int (length q))) (length ts)) True
           @ replicate (length ts - nat (max_requests rl - int (length q))) False
         \<and> window (snd (run_checks rl (same_key k ts))) k =
           q @ take (nat (max_requests rl - int (length q))) ts"
  using assms
proof (induction ts arbitrary: rl q)
  case Nil
  then show ?case by (simp add: same_key_def)
next
  case (Cons t ts)
  define rl1 where "rl1 = snd (is_allowed t k rl)"
  define W where "W = real_of_int (time_window rl)"
  have cfg: "time_window rl1 = time_window rl" "max_requests rl1 = max_requests rl"
    by (simp_all add: rl1_def)
  have "\<forall>s \<in> set q. t - W < s"
  proof
    fix s
    assume "s \<in> set q"
    then have "s \<in> set (q @ t # ts)" and "t \<in> set (t # ts)" by simp_all
    with Cons.prems(2) have "t - s < W" unfolding W_def by blast
    then show "t - W < s" by simp
  qed
  then have keep: "popleft_while (t - W) q = q" by (rule popleft_while_all_young)
  have run: "run_checks rl (same_key k (t # ts)) =
      (fst (is_allowed t k rl) # fst (run_checks rl1 (same_key k ts)),
       snd (run_checks rl1 (same_key k ts)))"
    by (simp add: same_key_def split_beta rl1_def)
  show ?case
  proof (cases "int (length q) < max_requests rl")
    case True
    then have ok: "fst (is_allowed t k rl)" and w1: "window rl1 k = q @ [t]"
      using keep Cons.prems(1)
      by (simp_all add: fst_is_allowed rl1_def window_is_allowed_same W_def)
    have "\<forall>s \<in> set ((q @ [t]) @ ts). \<forall>t' \<in> set ts. t' - s < real_of_int (time_window rl1)"
      using Cons.prems(2) cfg by auto
    from Cons.IH [OF w1 this]
    have ih: "fst (run_checks rl1 (same_key k ts)) =
           replicate (min (nat (max_requests rl - int (length (q @ [t])))) (length ts)) True
           @ replicate (length ts - nat (max_requests rl - int (length (q @ [t])))) False"
      "window (snd (run_checks rl1 (same_key k ts))) k =
           (q @ [t]) @ take (nat (max_requests rl - int (length (q @ [t])))) ts"
      by (simp_all add: cfg)
    obtain r where r: "nat (max_requests rl - int (length q)) = Suc r"
      "nat (max_requests rl - int (length (q @ [t]))) = r"
      using True by (cases "nat (max_requests rl - int (length q))") (auto simp: nat_eq_iff)
    show ?thesis unfolding run using ok ih r by simp
  next
    case False
    then have ok: "\<not> fst (is_allowed t k rl)" and w1: "window rl1 k = q"
      using keep Cons.prems(1)
      by (simp_all add: fst_is_allowed rl1_def window_is_allowed_same W_def)
    have "\<forall>s \<in> set (q @ ts). \<forall>t' \<in> set ts. t' - s < real_of_int (time_window rl1)"
      using Cons.prems(2) cfg by auto
    from Cons.IH [OF w1 this]
    have ih: "fst (run_checks rl1 (same_key k ts)) =
           replicate (min (nat (max_requests rl - int (length q))) (length ts)) True
           @ replicate (length ts - nat (max_requests rl - int (length q))) False"
      "window (snd (run_checks rl1 (same_key k ts))) k =
           q @ take (nat (max_requests rl - int (length q))) ts"
      by (simp_all add: cfg)
    have z: "nat (max_requests rl - int (length q)) = 0" using False by simp
    show ?thesis unfolding run using ok ih z by simp
  qed
qed

lemma run_checks_max_requests [simp]: "max_requests (snd (run_checks rl es)) = max_requests rl"
  by (induction es arbitrary: rl) (auto simp: split_beta)

lemma run_checks_time_window [simp]: "time_window (snd (run_checks rl es)) = time_window rl"
  by (induction es arbitrary: rl) (auto simp: split_beta)

lemma is_allowed_stamps_le:
  assumes "stamps_le \<tau> rl" and "\<tau> \<le> now"
  shows "stamps_le now (snd (is_allowed now key rl))"
  unfolding stamps_le_def
proof (intro allI ballI)
  fix k t
  assume t: "t \<in> set (window (snd (is_allowed now key rl)) k)"
  have old: "\<And>k' x. x \<in> set (window rl k') \<Longrightarrow> x \<le> now"
    using assms unfolding stamps_le_def by force
  show "t \<le> now"
  proof (cases "k = key")
    case True
    then have "t \<in> set (popleft_while (now - real_of_int (time_window rl)) (window rl key)) \<or> t = now"
      using t by (auto simp: window_is_allowed_same Let_def split: if_splits)
    then show ?thesis using old [of t key] set_popleft_while by auto
  next
    case False
    then show ?thesis using t old [of t k] by (simp add: window_is_allowed_other)
  qed
qed

lemma run_checks_stamps_le:
  assumes "stamps_le \<tau> rl" and "sorted (map fst es)" and "\<forall>e \<in> set es. \<tau> \<le> fst e" and "es \<noteq> []"
  shows "stamps_le (fst (last es)) (snd (run_checks rl es))"
  using assms
proof (induction es arbitrary: rl \<tau>)
  case Nil
  then show ?case by simp
next
  case (Cons e es)
  obtain now key where e: "e = (now, key)" by (cases e)
  have step: "stamps_le now (snd (is_allowed now key rl))"
    using Cons.prems(1,3) e by (intro is_allowed_stamps_le [where \<tau> = \<tau>]) simp_all
  show ?case
  proof (cases "es = []")
    case True
    then show ?thesis using step e by (simp add: split_beta)
  next
    case False
    have "stamps_le (fst (last es)) (snd (run_checks (snd (is_allowed now key rl)) es))"
      using step Cons.prems(2) e False by (intro Cons.IH [where \<tau> = now]) auto
    then show ?thesis using False e by (simp add: split_beta)
  qed
qed

section \<open>Basic facts about the client and the route\<close>

lemma msgs_nonempty:
  "msg_quota \<noteq> []" "msg_api_error \<noteq> []" "msg_request_error \<noteq> []" "msg_unexpected \<noteq> []"
  by (simp_all add: msg_quota_def msg_api_error_def msg_request_error_def msg_unexpected_def)

lemma generate_content_Raised:
  "generate_content (Raised e) =
     JStr (if e = RequestException then msg_request_error else msg_unexpected)"
  by (simp add: generate_content_def generate_content_try_def)

lemma generate_content_other_status:
  "status_code resp \<noteq> 200 \<Longrightarrow> status_code resp \<noteq> 429 \<Longrightarrow>
     generate_content (Returned resp) = JStr msg_api_error"
  by (simp add: generate_content_def generate_content_try_def)

lemma generate_content_429:
  "status_code resp = 429 \<Longrightarrow>
     generate_content (Returned resp) \<in> {JStr msg_quota, JStr msg_request_error, JStr msg_unexpected}"
  by (auto simp: generate_content_def generate_content_try_def bind_exn_def split: sum.splits)

lemma generate_content_200:
  "status_code resp = 200 \<Longrightarrow> json_result resp = Inr data \<Longrightarrow>
     generate_content (Returned resp) =
       (case extract_text data of
          Inr v \<Rightarrow> v
        | Inl e \<Rightarrow> if e = RequestException then JStr msg_request_error else JStr msg_unexpected)"
  by (simp add: generate_content_def generate_content_try_def bind_exn_def)

lemma bind_exn_Inr [simp]: "bind_exn (Inr x) f = f x"
  by (simp add: bind_exn_def)

lemma bind_exn_Inl [simp]: "bind_exn (Inl e) f = Inl e"
  by (simp add: bind_exn_def)

lemma py_basic [simp]:
  "py_in key (JObj kvs) = Inr (map_of kvs key \<noteq> None)"
  "py_getitem (JObj kvs) key = (case map_of kvs key of None \<Rightarrow> Inl KeyError | Some x \<Rightarrow> Inr x)"
  "py_len (JArr xs) = Inr (length xs)"
  "py_getitem0 (JArr xs) = (case xs of [] \<Rightarrow> Inl IndexError | x # _ \<Rightarrow> Inr x)"
  "py_get (JObj kvs) key d = Inr (case map_of kvs key of None \<Rightarrow> d | Some x \<Rightarrow> x)"
  by (simp_all add: py_in_def py_getitem_def py_len_def py_getitem0_def py_get_def)

lemma chat_limiter: "limiter (snd (chat client save stamp body w)) = limiter w"
  by (simp add: chat_def Let_def split: sum.splits option.splits prod.splits)

lemma chat_fst_independent:
  "fst (chat client save stamp body (w\<lparr>limiter := rl\<rparr>)) = fst (chat client save stamp body w)"
  by (simp add: chat_def Let_def split: sum.splits option.splits prod.splits)

lemma chat_posted_independent:
  "posted (snd (chat client save stamp body (w\<lparr>limiter := rl\<rparr>))) = posted (snd (chat client save stamp body w))"
  by (simp add: chat_def Let_def split: sum.splits option.splits prod.splits)

lemma chat_posts_once:
  assumes "body = Inr (JObj kvs)" and "map_of kvs ''message'' = Some (JStr m)"
    and "py_strip (JStr m) = Inr um" and "um \<noteq> []"
  shows "posted (snd (chat (Some post) save stamp body w)) = make_prompt um # posted w"
    and "fst (chat (Some post) save stamp body w) =
           (200, JObj [(''user_message'', JStr um),
                       (''ai_response'', generate_content (post (make_prompt um))),
                       (''timestamp'', JStr stamp)])"
  using assms by (simp_all add: chat_def Let_def split: sum.splits option.splits prod.splits)

lemma chat_blank:
  assumes "body = Inr (JObj kvs)" and "map_of kvs ''message'' = Some (JStr m)"
    and "py_strip (JStr m) = Inr []"
  shows "posted (snd (chat client save stamp body w)) = posted w"
    and "fst (chat client save stamp body w) =
           (400, JObj [(''error'', JStr ''Message cannot be empty'')])"
  using assms by (simp_all add: chat_def)

lemma full_window: "window (limiter full_world) ''default'' = [0, 0, 0, 0, 0]"
   "max_requests (limiter full_world) = 5" "time_window (limiter full_world) = 60"
  by (simp_all add: full_world_def rate_limiter_def RateLimiter_init_def is_allowed_def dd_getitem_def
        window_def Let_def)

lemma strip_hi: "py_strip (JStr ''hi'') = Inr ''hi''"
  by (simp add: py_strip_def lstrip_def rstrip_def py_whitespace_def)

section \<open>The claims\<close>

text \<open>
  C1. Run any sequence of admission checks with non-decreasing clock readings on a
  limiter that holds no key yet and whose \<open>max_requests\<close> is not negative. Then for
  every key \<open>k\<close> and every time \<open>t\<close>, at most \<open>max_requests\<close> of the checks admitted for
  \<open>k\<close> have their timestamp in the trailing interval \<open>(t - time_window, t]\<close>, the
  interval that the purge of \<^verbatim>\<open>is_allowed\<close> keeps.
\<close>

theorem window_admissions_bounded:
  assumes "0 \<le> max_requests rl" and "requests rl = Map.empty" and "sorted (map fst es)"
  shows "int (length (filter (\<lambda>x. t - real_of_int (time_window rl) < x \<and> x \<le> t) (admitted k rl es)))
           \<le> max_requests rl"
proof (cases "0 < real_of_int (time_window rl)")
  case True
  define \<tau> where "\<tau> = (case es of [] \<Rightarrow> 0 | e # _ \<Rightarrow> fst e)"
  have "\<forall>e \<in> set es. \<tau> \<le> fst e"
    using assms(3) by (cases es) (auto simp: \<tau>_def)
  moreover have "tracks (real_of_int (time_window rl)) \<tau> (window rl k) []"
    using assms(2) by (auto simp: tracks_def window_def)
  moreover have "within_limit (real_of_int (time_window rl)) (max_requests rl) []"
    using assms(1) by (simp add: within_limit_def)
  ultimately have "within_limit (real_of_int (time_window rl)) (max_requests rl) ([] @ admitted k rl es)"
    using True assms(3) by (intro admitted_within_limit)
  then show ?thesis by (simp add: within_limit_def)
next
  case False
  then have "\<And>x. \<not> (t - real_of_int (time_window rl) < x \<and> x \<le> t)" by auto
  then show ?thesis using assms(1) by simp
qed

theorem window_admissions_bounded_witness:
  "0 \<le> max_requests rate_limiter \<and> requests rate_limiter = Map.empty \<and>
   sorted (map fst [(0::real, ''u1''), (0, ''u1''), (0, ''u1''), (0, ''u1''), (0, ''u1''), (1, ''u1'')]) \<and>
   admitted ''u1'' rate_limiter
     [(0, ''u1''), (0, ''u1''), (0, ''u1''), (0, ''u1''), (0, ''u1''), (1, ''u1'')] = [0, 0, 0, 0, 0] \<and>
   int (length (filter (\<lambda>x. 1 - real_of_int (time_window rate_limiter) < x \<and> x \<le> 1)
     (admitted ''u1'' rate_limiter
        [(0, ''u1''), (0, ''u1''), (0, ''u1''), (0, ''u1''), (0, ''u1''), (1, ''u1'')]))) \<le> 5"
proof -
  have cfg: "0 \<le> max_requests rate_limiter" "requests rate_limiter = Map.empty"
    "max_requests rate_limiter = 5"
    by (simp_all add: rate_limiter_def RateLimiter_init_def)
  have srt: "sorted (map fst [(0::real, ''u1''), (0, ''u1''), (0, ''u1''), (0, ''u1''), (0, ''u1''), (1, ''u1'')])"
    by simp
  have adm: "admitted ''u1'' rate_limiter
     [(0, ''u1''), (0, ''u1''), (0, ''u1''), (0, ''u1''), (0, ''u1''), (1, ''u1'')] = [0, 0, 0, 0, 0]"
    by (simp add: rate_limiter_def RateLimiter_init_def is_allowed_def dd_getitem_def Let_def)
  show ?thesis
    using window_admissions_bounded [OF cfg(1) cfg(2) srt, of 1 "''u1''"] cfg srt adm by simp
qed

text \<open>
  C2. \<^verbatim>\<open>generate_content\<close> returns a value for every outcome of the post. A
  connection or timeout failure gives the connection message and any other exception
  the generic message; a status other than 200 and 429 gives the processing message;
  status 429 gives the quota message, or one of the two exception messages when its
  body cannot be read as the code reads it; all four messages are non-empty. Status
  200 with \<^verbatim>\<open>candidates[0].content.parts[0].text\<close> present gives that value as it is.
  Status 200 without \<^verbatim>\<open>candidates\<close> gives \<^verbatim>\<open>None\<close>, which is not a text. Every
  exception raised inside the \<^verbatim>\<open>try\<close> block ends in one of the two exception
  messages.
\<close>

theorem generate_content_outcomes:
  "generate_content (Raised RequestException) = JStr msg_request_error \<and>
   (e \<noteq> RequestException \<longrightarrow> generate_content (Raised e) = JStr msg_unexpected) \<and>
   (status_code resp \<noteq> 200 \<and> status_code resp \<noteq> 429 \<longrightarrow>
      generate_content (Returned resp) = JStr msg_api_error) \<and>
   (status_code resp = 429 \<longrightarrow>
      generate_content (Returned resp)
        \<in> {JStr msg_quota, JStr msg_request_error, JStr msg_unexpected}) \<and>
   (status_code resp = 429 \<and> json_result resp = Inr (JObj kvs) \<and> map_of kvs ''error'' = None \<longrightarrow>
      generate_content (Returned resp) = JStr msg_quota) \<and>
   (status_code resp = 200 \<and> json_result resp = Inr (JObj kvs) \<and>
    map_of kvs ''candidates'' = Some (JArr (JObj c # cs)) \<and>
    map_of c ''content'' = Some (JObj ct) \<and>
    map_of ct ''parts'' = Some (JArr (JObj p # ps)) \<and>
    map_of p ''text'' = Some txt \<longrightarrow>
      generate_content (Returned resp) = txt) \<and>
   (status_code resp = 200 \<and> json_result resp = Inr (JObj kvs) \<and>
    map_of kvs ''candidates'' = None \<longrightarrow>
      generate_content (Returned resp) = JNull) \<and>
   msg_quota \<noteq> [] \<and> msg_api_error \<noteq> [] \<and> msg_request_error \<noteq> [] \<and> msg_unexpected \<noteq> [] \<and>
   (generate_content_try r = Inl x \<longrightarrow>
      generate_content r = JStr (if x = RequestException then msg_request_error else msg_unexpected))"
proof -
  have h: "generate_content_try r = Inl x \<longrightarrow>
      generate_content r = JStr (if x = RequestException then msg_request_error else msg_unexpected)"
    by (simp add: generate_content_def)
  have a: "generate_content (Raised RequestException) = JStr msg_request_error"
    by (simp add: generate_content_Raised)
  have b: "e \<noteq> RequestException \<longrightarrow> generate_content (Raised e) = JStr msg_unexpected"
    by (simp add: generate_content_Raised)
  have c: "status_code resp \<noteq> 200 \<and> status_code resp \<noteq> 429 \<longrightarrow>
      generate_content (Returned resp) = JStr msg_api_error"
    by (simp add: generate_content_other_status)
  have d: "status_code resp = 429 \<longrightarrow>
      generate_content (Returned resp)
        \<in> {JStr msg_quota, JStr msg_request_error, JStr msg_unexpected}"
    using generate_content_429 by blast
  have d': "status_code resp = 429 \<and> json_result resp = Inr (JObj kvs) \<and> map_of kvs ''error'' = None \<longrightarrow>
      generate_content (Returned resp) = JStr msg_quota"
    by (simp add: generate_content_def generate_content_try_def quota_message_def)
  have f: "status_code resp = 200 \<and> json_result resp = Inr (JObj kvs) \<and>
    map_of kvs ''candidates'' = Some (JArr (JObj c # cs)) \<and>
    map_of c ''content'' = Some (JObj ct) \<and>
    map_of ct ''parts'' = Some (JArr (JObj p # ps)) \<and>
    map_of p ''text'' = Some txt \<longrightarrow>
      generate_content (Returned resp) = txt"
    by (simp add: generate_content_200 extract_text_def)
  have g: "status_code resp = 200 \<and> json_result resp = Inr (JObj kvs) \<and>
    map_of kvs ''candidates'' = None \<longrightarrow>
      generate_content (Returned resp) = JNull"
    by (simp add: generate_content_200 extract_text_def)
  show ?thesis using a b c d d' f g h msgs_nonempty by blast
qed

theorem generate_content_outcomes_witness:
  "generate_content (Raised RequestException) = JStr msg_request_error \<and>
   generate_content (Raised KeyError) = JStr msg_unexpected \<and>
   generate_content (Returned \<lparr> status_code = 500, json_result = Inl OtherError, body_text = ''oops'' \<rparr>)
     = JStr msg_api_error \<and>
   generate_content (Returned \<lparr> status_code = 429, json_result = Inr (JObj []), body_text = ''{}'' \<rparr>)
     = JStr msg_quota \<and>
   generate_content (Returned \<lparr> status_code = 200,
     json_result = Inr (JObj [(''candidates'',
        JArr [JObj [(''content'', JObj [(''parts'', JArr [JObj [(''text'', JStr ''Hello'')]])])]])]),
     body_text = [] \<rparr>) = JStr ''Hello'' \<and>
   generate_content (Returned \<lparr> status_code = 200, json_result = Inr (JObj [(''usage'', JNum 3)]),
     body_text = [] \<rparr>) = JNull \<and>
   generate_content (Returned \<lparr> status_code = 429, json_result = Inl RequestException,
     body_text = ''Too Many Requests'' \<rparr>) = JStr msg_request_error \<and>
   generate_content_try (Returned \<lparr> status_code = 429, json_result = Inl RequestException,
     body_text = ''Too Many Requests'' \<rparr>) = Inl RequestException"
proof -
  have t: "generate_content_try (Returned \<lparr> status_code = 429, json_result = Inl RequestException,
     body_text = ''Too Many Requests'' \<rparr>) = Inl RequestException"
    by (simp add: generate_content_try_def)
  have q: "generate_content (Returned \<lparr> status_code = 429, json_result = Inl RequestException,
     body_text = ''Too Many Requests'' \<rparr>) = JStr msg_request_error"
    using t generate_content_outcomes
      [of _ _ _ _ _ _ _ _ _ "Returned \<lparr> status_code = 429, json_result = Inl RequestException,
     body_text = ''Too Many Requests'' \<rparr>" RequestException] by simp
  have a: "generate_content (Raised KeyError) = JStr msg_unexpected"
    using generate_content_outcomes [of KeyError] by simp
  have b: "generate_content (Returned \<lparr> status_code = 500, json_result = Inl OtherError, body_text = ''oops'' \<rparr>)
     = JStr msg_api_error"
    using generate_content_outcomes
      [of _ "\<lparr> status_code = 500, json_result = Inl OtherError, body_text = ''oops'' \<rparr>"] by simp
  have c: "generate_content (Returned \<lparr> status_code = 429, json_result = Inr (JObj []), body_text = ''{}'' \<rparr>)
     = JStr msg_quota"
    using generate_content_outcomes
      [of _ "\<lparr> status_code = 429, json_result = Inr (JObj []), body_text = ''{}'' \<rparr>" "[]"] by simp
  have d: "generate_content (Returned \<lparr> status_code = 200,
     json_result = Inr (JObj [(''candidates'',
        JArr [JObj [(''content'', JObj [(''parts'', JArr [JObj [(''text'', JStr ''Hello'')]])])]])]),
     body_text = [] \<rparr>) = JStr ''Hello''"
    using generate_content_outcomes
      [of _ "\<lparr> status_code = 200,
     json_result = Inr (JObj [(''candidates'',
        JArr [JObj [(''content'', JObj [(''parts'', JArr [JObj [(''text'', JStr ''Hello'')]])])]])]),
     body_text = [] \<rparr>"
     "[(''candidates'',
        JArr [JObj [(''content'', JObj [(''parts'', JArr [JObj [(''text'', JStr ''Hello'')]])])]])]"
     "[(''content'', JObj [(''parts'', JArr [JObj [(''text'', JStr ''Hello'')]])])]" "[]"
     "[(''parts'', JArr [JObj [(''text'', JStr ''Hello'')]])]"
     "[(''text'', JStr ''Hello'')]" "[]" "JStr ''Hello''"] by simp
  have e: "generate_content (Returned \<lparr> status_code = 200, json_result = Inr (JObj [(''usage'', JNum 3)]),
     body_text = [] \<rparr>) = JNull"
    using generate_content_outcomes
      [of _ "\<lparr> status_code = 200, json_result = Inr (JObj [(''usage'', JNum 3)]), body_text = [] \<rparr>"
         "[(''usage'', JNum 3)]"] by simp
  show ?thesis using generate_content_outcomes a b c d e q t by simp
qed

theorem empty_body_counterexample:
  "generate_content (Returned \<lparr> status_code = 200, json_result = Inr (JObj []), body_text = ''{}'' \<rparr>) = JNull"
  by (simp add: generate_content_200 extract_text_def)

text \<open>
  C3. The route \<^verbatim>\<open>chat\<close> never consults the limiter: it leaves the limiter as it
  was, and neither its answer nor the prompts it posts depend on the limiter's state.
  For a message that \<^verbatim>\<open>strip()\<close> leaves non-empty and a configured client it posts
  exactly one prompt and answers 200 with what \<^verbatim>\<open>generate_content\<close> returned, also
  when \<^verbatim>\<open>is_allowed\<close> would deny the key. For a message of whitespace only, Unicode
  whitespace included, it posts nothing and answers 400.
\<close>

theorem chat_never_consults_limiter:
  "limiter (snd (chat client save stamp body w)) = limiter w \<and>
   fst (chat client save stamp body (w\<lparr>limiter := rl\<rparr>)) = fst (chat client save stamp body w) \<and>
   posted (snd (chat client save stamp body (w\<lparr>limiter := rl\<rparr>)))
     = posted (snd (chat client save stamp body w)) \<and>
   (body = Inr (JObj kvs) \<and> map_of kvs ''message'' = Some (JStr m) \<and> utf8 m \<and>
    py_strip (JStr m) = Inr um \<and> um \<noteq> [] \<longrightarrow>
      posted (snd (chat (Some post) save stamp body w)) = make_prompt um # posted w \<and>
      fst (chat (Some post) save stamp body w) =
        (200, JObj [(''user_message'', JStr um),
                    (''ai_response'', generate_content (post (make_prompt um))),
                    (''timestamp'', JStr stamp)])) \<and>
   (body = Inr (JObj kvs) \<and> map_of kvs ''message'' = Some (JStr m) \<and> utf8 m \<and>
    py_strip (JStr m) = Inr [] \<longrightarrow>
      posted (snd (chat client save stamp body w)) = posted w \<and>
      fst (chat client save stamp body w) =
        (400, JObj [(''error'', JStr ''Message cannot be empty'')]))"
proof -
  have once: "body = Inr (JObj kvs) \<and> map_of kvs ''message'' = Some (JStr m) \<and> utf8 m \<and>
    py_strip (JStr m) = Inr um \<and> um \<noteq> [] \<longrightarrow>
      posted (snd (chat (Some post) save stamp body w)) = make_prompt um # posted w \<and>
      fst (chat (Some post) save stamp body w) =
        (200, JObj [(''user_message'', JStr um),
                    (''ai_response'', generate_content (post (make_prompt um))),
                    (''timestamp'', JStr stamp)])"
    using chat_posts_once [of body kvs m um post save stamp w] by simp
  have blank: "body = Inr (JObj kvs) \<and> map_of kvs ''message'' = Some (JStr m) \<and> utf8 m \<and>
    py_strip (JStr m) = Inr [] \<longrightarrow>
      posted (snd (chat client save stamp body w)) = posted w \<and>
      fst (chat client save stamp body w) =
        (400, JObj [(''error'', JStr ''Message cannot be empty'')])"
    using chat_blank [of body kvs m client save stamp w] by simp
  from once blank show ?thesis
    by (simp only: chat_limiter chat_fst_independent chat_posted_independent simp_thms)
qed

theorem chat_never_consults_limiter_witness:
  "utf8 '' hi '' \<and> py_strip (JStr '' hi '') = Inr ''hi'' \<and>
   posted (snd (chat (Some (\<lambda>prompt. Raised RequestException)) (\<lambda>m r c. Inr c) ''t''
      (Inr (JObj [(''message'', JStr '' hi '')])) full_world)) = [make_prompt ''hi''] \<and>
   limiter (snd (chat (Some (\<lambda>prompt. Raised RequestException)) (\<lambda>m r c. Inr c) ''t''
      (Inr (JObj [(''message'', JStr '' hi '')])) full_world)) = limiter full_world \<and>
   utf8 [CHR 0xC2, CHR 0xA0, CHR 0xE3, CHR 0x80, CHR 0x80] \<and>
   py_strip (JStr [CHR 0xC2, CHR 0xA0, CHR 0xE3, CHR 0x80, CHR 0x80]) = Inr [] \<and>
   posted (snd (chat (Some (\<lambda>prompt. Raised RequestException)) (\<lambda>m r c. Inr c) ''t''
      (Inr (JObj [(''message'', JStr [CHR 0xC2, CHR 0xA0, CHR 0xE3, CHR 0x80, CHR 0x80])]))
      full_world)) = [] \<and>
   fst (chat (Some (\<lambda>prompt. Raised RequestException)) (\<lambda>m r c. Inr c) ''t''
      (Inr (JObj [(''message'', JStr [CHR 0xC2, CHR 0xA0, CHR 0xE3, CHR 0x80, CHR 0x80])]))
      full_world) = (400, JObj [(''error'', JStr ''Message cannot be empty'')])"
proof -
  have u: "utf8 '' hi ''" "utf8 [CHR 0xC2, CHR 0xA0, CHR 0xE3, CHR 0x80, CHR 0x80]"
    by (simp_all add: utf8_width_def is_continuation_def)
  have s: "py_strip (JStr '' hi '') = Inr ''hi''"
    "py_strip (JStr [CHR 0xC2, CHR 0xA0, CHR 0xE3, CHR 0x80, CHR 0x80]) = Inr []"
    by (simp_all add: py_strip_def lstrip_def rstrip_def py_whitespace_def)
  have p: "posted full_world = []" by (simp add: full_world_def)
  show ?thesis
    using chat_never_consults_limiter [where client = "Some (\<lambda>prompt. Raised RequestException)"
        and save = "\<lambda>m r c. Inr c" and stamp = "''t''"
        and body = "Inr (JObj [(''message'', JStr '' hi '')])" and w = full_world
        and kvs = "[(''message'', JStr '' hi '')]" and m = "'' hi ''" and um = "''hi''"
        and post = "\<lambda>prompt. Raised RequestException"]
      chat_never_consults_limiter [where client = "Some (\<lambda>prompt. Raised RequestException)"
        and save = "\<lambda>m r c. Inr c" and stamp = "''t''"
        and body = "Inr (JObj [(''message'', JStr [CHR 0xC2, CHR 0xA0, CHR 0xE3, CHR 0x80, CHR 0x80])])"
        and w = full_world
        and kvs = "[(''message'', JStr [CHR 0xC2, CHR 0xA0, CHR 0xE3, CHR 0x80, CHR 0x80])]"
        and m = "[CHR 0xC2, CHR 0xA0, CHR 0xE3, CHR 0x80, CHR 0x80]"]
      u s p
    by simp
qed

theorem chat_while_denied_counterexample:
  "\<not> fst (is_allowed 1 ''default'' (limiter full_world)) \<and>
   posted (snd (chat (Some (\<lambda>prompt. Raised RequestException)) (\<lambda>m r c. Inr c) ''2024-01-01T00:00:01''
      (Inr (JObj [(''message'', JStr ''hi'')])) full_world)) = [make_prompt ''hi''] \<and>
   fst (chat (Some (\<lambda>prompt. Raised RequestException)) (\<lambda>m r c. Inr c) ''2024-01-01T00:00:01''
      (Inr (JObj [(''message'', JStr ''hi'')])) full_world) =
     (200, JObj [(''user_message'', JStr ''hi''), (''ai_response'', JStr msg_request_error),
                 (''timestamp'', JStr ''2024-01-01T00:00:01'')])"
proof -
  have a: "\<not> fst (is_allowed 1 ''default'' (limiter full_world))"
    by (simp add: fst_is_allowed full_window)
  have p: "posted full_world = []" "db_connection full_world = None"
    by (simp_all add: full_world_def)
  show ?thesis using a p strip_hi
    by (simp add: chat_def Let_def generate_content_Raised)
qed

text \<open>
  C4. Let \<open>max_requests\<close> be positive and the limiter hold no key. For
  \<open>max_requests + 1\<close> checks of one key whose clock readings lie pairwise less than
  \<open>time_window\<close> apart, the first \<open>max_requests\<close> are admitted and the last one is
  denied; the deque then holds the admitted readings. \<^verbatim>\<open>get_retry_after\<close>, asked at
  the time of the denied check, returns the truncated rest of the window of the first
  reading, which is never negative and is positive exactly when at least one whole
  second of that window is left.
\<close>

theorem burst_then_deny:
  assumes "0 < max_requests rl" and "requests rl = Map.empty"
    and "length ts = nat (max_requests rl) + 1"
    and "\<forall>s \<in> set ts. \<forall>t \<in> set ts. t - s < real_of_int (time_window rl)"
  shows "fst (run_checks rl (same_key k ts)) = replicate (nat (max_requests rl)) True @ [False] \<and>
         window (snd (run_checks rl (same_key k ts))) k = butlast ts \<and>
         fst (get_retry_after (last ts) k (snd (run_checks rl (same_key k ts)))) =
           max 0 (py_int (real_of_int (time_window rl) - (last ts - hd ts))) \<and>
         0 \<le> fst (get_retry_after (last ts) k (snd (run_checks rl (same_key k ts)))) \<and>
         (0 < fst (get_retry_after (last ts) k (snd (run_checks rl (same_key k ts))))
            \<longleftrightarrow> last ts - hd ts \<le> real_of_int (time_window rl) - 1)"
proof -
  define rl' where "rl' = snd (run_checks rl (same_key k ts))"
  define m where "m = nat (max_requests rl)"
  have w0: "window rl k = []" using assms(2) by (simp add: window_def)
  have pre: "\<forall>s \<in> set ([] @ ts). \<forall>t \<in> set ts. t - s < real_of_int (time_window rl)"
    using assms(4) by simp
  have len: "length ts = Suc m" using assms(3) by (simp add: m_def)
  from burst_run [OF w0 pre]
  have verdicts: "fst (run_checks rl (same_key k ts)) = replicate m True @ [False]"
    and win: "window rl' k = take m ts"
    using len by (simp_all add: m_def rl'_def)
  have bl: "take m ts = butlast ts" using len by (simp add: butlast_conv_take)
  have mpos: "0 < m" using assms(1) by (simp add: m_def)
  obtain t0 rest where ts: "ts = t0 # rest" using len by (cases ts) auto
  obtain m' where m': "m = Suc m'" using mpos by (cases m) auto
  have hd: "window rl' k = t0 # take m' rest" using win ts m' by simp
  have ra: "fst (get_retry_after (last ts) k rl') =
      max 0 (py_int (real_of_int (time_window rl) - (last ts - hd ts)))"
    using hd ts by (simp add: fst_get_retry_after rl'_def)
  have pos: "0 < fst (get_retry_after (last ts) k rl')
      \<longleftrightarrow> last ts - hd ts \<le> real_of_int (time_window rl) - 1"
  proof -
    have "0 < fst (get_retry_after (last ts) k rl')
        \<longleftrightarrow> 0 < py_int (real_of_int (time_window rl) - (last ts - hd ts))"
      unfolding ra by auto
    also have "\<dots> \<longleftrightarrow> 1 \<le> real_of_int (time_window rl) - (last ts - hd ts)"
      by (simp only: py_int_pos_iff)
    also have "\<dots> \<longleftrightarrow> last ts - hd ts \<le> real_of_int (time_window rl) - 1" by auto
    finally show ?thesis .
  qed
  have nonneg: "0 \<le> fst (get_retry_after (last ts) k rl')" unfolding ra by simp
  show ?thesis using verdicts win bl ra pos nonneg unfolding rl'_def m_def by simp
qed

theorem burst_then_deny_witness:
  "0 < max_requests rate_limiter \<and> requests rate_limiter = Map.empty \<and>
   length [0, 0, 0, 0, 0, 1 :: real] = nat (max_requests rate_limiter) + 1 \<and>
   fst (run_checks rate_limiter (same_key ''u1'' [0, 0, 0, 0, 0, 1]))
     = [True, True, True, True, True, False] \<and>
   fst (get_retry_after 1 ''u1'' (snd (run_checks rate_limiter (same_key ''u1'' [0, 0, 0, 0, 0, 1])))) = 59"
proof -
  have h1: "0 < max_requests rate_limiter" and h2: "requests rate_limiter = Map.empty"
    and mr: "max_requests rate_limiter = 5" and tw: "time_window rate_limiter = 60"
    by (simp_all add: rate_limiter_def RateLimiter_init_def)
  have h3: "length [0, 0, 0, 0, 0, 1 :: real] = nat (max_requests rate_limiter) + 1"
    by (simp add: mr)
  have h4: "\<forall>s \<in> set [0, 0, 0, 0, 0, 1 :: real]. \<forall>t \<in> set [0, 0, 0, 0, 0, 1 :: real].
      t - s < real_of_int (time_window rate_limiter)"
    by (simp add: tw)
  have r: "replicate (nat 5) True = [True, True, True, True, True]"
    by (simp add: eval_nat_numeral)
  have pi: "py_int 59 = 59" by (simp add: py_int_def)
  show ?thesis
    using burst_then_deny [OF h1 h2 h3 h4, of "''u1''"] h1 h2 h3 r pi by (simp add: mr tw)
qed

theorem burst_retry_zero_counterexample:
  "fst (run_checks (RateLimiter_init (Some 1) (Some 60)) [(0, ''u1''), (119/2, ''u1'')]) = [True, False] \<and>
   (119/2 :: real) - 0 < 60 \<and>
   fst (get_retry_after (119/2) ''u1''
     (snd (run_checks (RateLimiter_init (Some 1) (Some 60)) [(0, ''u1''), (119/2, ''u1'')]))) = 0"
  by (simp add: RateLimiter_init_def is_allowed_def get_retry_after_def dd_getitem_def Let_def py_int_def)

text \<open>
  C5. For a key whose deque is not empty and starts with \<open>t0\<close>, \<^verbatim>\<open>get_retry_after\<close>
  at time \<open>now\<close> returns \<open>max 0 (int (time_window - (now - t0)))\<close>, the difference
  truncated to an integer. The value is never negative, does not increase when the
  query time grows, and is 0 exactly when less than one second of the window of
  \<open>t0\<close> is left.
\<close>

theorem retry_after_truncated:
  assumes "window rl key = t0 # ts"
  shows "fst (get_retry_after now key rl) =
           max 0 (py_int (real_of_int (time_window rl) - (now - t0))) \<and>
         0 \<le> fst (get_retry_after now key rl) \<and>
         (now \<le> now' \<longrightarrow> fst (get_retry_after now' key rl) \<le> fst (get_retry_after now key rl)) \<and>
         (fst (get_retry_after now key rl) = 0 \<longleftrightarrow> real_of_int (time_window rl) - 1 < now - t0)"
proof -
  let ?W = "real_of_int (time_window rl)"
  have v: "\<And>n. fst (get_retry_after n key rl) = max 0 (py_int (?W - (n - t0)))"
    using assms by (simp add: fst_get_retry_after)
  have mono: "now \<le> now' \<longrightarrow> fst (get_retry_after now' key rl) \<le> fst (get_retry_after now key rl)"
  proof
    assume "now \<le> now'"
    then have "?W - (now' - t0) \<le> ?W - (now - t0)" by simp
    then have "py_int (?W - (now' - t0)) \<le> py_int (?W - (now - t0))" by (rule py_int_mono)
    then show "fst (get_retry_after now' key rl) \<le> fst (get_retry_after now key rl)"
      unfolding v by simp
  qed
  have zero: "fst (get_retry_after now key rl) = 0 \<longleftrightarrow> ?W - 1 < now - t0"
  proof -
    have "fst (get_retry_after now key rl) = 0 \<longleftrightarrow> \<not> 0 < py_int (?W - (now - t0))"
      unfolding v by auto
    also have "\<dots> \<longleftrightarrow> \<not> 1 \<le> ?W - (now - t0)" by (simp only: py_int_pos_iff)
    also have "\<dots> \<longleftrightarrow> ?W - 1 < now - t0" by auto
    finally show ?thesis .
  qed
  show ?thesis using v mono zero by simp
qed

theorem retry_after_truncated_witness:
  "window (snd (is_allowed 0 ''u1'' rate_limiter)) ''u1'' = [0] \<and>
   fst (get_retry_after 1 ''u1'' (snd (is_allowed 0 ''u1'' rate_limiter))) = 59 \<and>
   fst (get_retry_after 2 ''u1'' (snd (is_allowed 0 ''u1'' rate_limiter))) = 58 \<and>
   fst (get_retry_after 2 ''u1'' (snd (is_allowed 0 ''u1'' rate_limiter)))
     \<le> fst (get_retry_after 1 ''u1'' (snd (is_allowed 0 ''u1'' rate_limiter)))"
proof -
  define rl where "rl = snd (is_allowed 0 ''u1'' rate_limiter)"
  have w: "window rl ''u1'' = [0]"
    by (simp add: rl_def rate_limiter_def RateLimiter_init_def is_allowed_def dd_getitem_def
        window_def Let_def)
  have tw: "time_window rl = 60"
    by (simp add: rl_def rate_limiter_def RateLimiter_init_def)
  have "py_int 59 = 59" "py_int 58 = 58" by (simp_all add: py_int_def)
  then show ?thesis
    using retry_after_truncated [OF w, of 1 2] retry_after_truncated [OF w, of 2 2] w tw
    unfolding rl_def by simp
qed

theorem retry_after_fraction_counterexample:
  "window (snd (is_allowed 0 ''u1'' rate_limiter)) ''u1'' = [0] \<and>
   fst (get_retry_after (1/4) ''u1'' (snd (is_allowed 0 ''u1'' rate_limiter))) = 59 \<and>
   fst (get_retry_after (1/2) ''u1'' (snd (is_allowed 0 ''u1'' rate_limiter))) = 59 \<and>
   real_of_int (fst (get_retry_after (1/2) ''u1'' (snd (is_allowed 0 ''u1'' rate_limiter))))
     \<noteq> max 0 (real_of_int (time_window rate_limiter) - (1/2 - 0)) \<and>
   fst (get_retry_after (119/2) ''u1'' (snd (is_allowed 0 ''u1'' rate_limiter))) = 0 \<and>
   (119/2 :: real) < 0 + real_of_int (time_window rate_limiter)"
proof -
  define rl where "rl = snd (is_allowed 0 ''u1'' rate_limiter)"
  have w: "window rl ''u1'' = [0]"
    by (simp add: rl_def rate_limiter_def RateLimiter_init_def is_allowed_def dd_getitem_def
        window_def Let_def)
  have tw: "time_window rl = 60" "time_window rate_limiter = 60"
    by (simp_all add: rl_def rate_limiter_def RateLimiter_init_def)
  have a: "py_int (60 - 1/4) = 59" by (simp add: py_int_def)
  have b: "py_int (60 - 1/2) = 59" by (simp add: py_int_def)
  have c: "py_int (60 - 119/2) = 0" by (simp add: py_int_def)
  show ?thesis
    using a b c w tw unfolding rl_def [symmetric] by (simp add: fst_get_retry_after)
qed

text \<open>
  C6. Let \<open>max_requests\<close> be positive. Run checks with non-decreasing clock readings
  on a limiter that holds no key, the last of them a check of key \<open>k\<close> at time \<open>t\<close>
  that is denied. Then a check of \<open>k\<close> at any time later than \<open>t + time_window\<close>,
  with no check in between, is admitted.
\<close>

theorem admit_after_waiting:
  assumes "0 < max_requests rl0" and "requests rl0 = Map.empty"
    and "sorted (map fst (es @ [(t, k)]))"
    and "run_checks rl0 (es @ [(t, k)]) = (oks, rl)"
    and "\<not> last oks"
    and "t + real_of_int (time_window rl0) < t'"
  shows "fst (is_allowed t' k rl)"
proof -
  define \<tau> where "\<tau> = fst (hd (es @ [(t, k)]))"
  have "stamps_le \<tau> rl0" using assms(2) by (simp add: stamps_le_def window_def)
  moreover have "\<forall>e \<in> set (es @ [(t, k)]). \<tau> \<le> fst e"
    using assms(3) unfolding \<tau>_def by (cases "es @ [(t, k)]") auto
  ultimately have "stamps_le (fst (last (es @ [(t, k)]))) (snd (run_checks rl0 (es @ [(t, k)])))"
    using assms(3) by (intro run_checks_stamps_le [where \<tau> = \<tau>]) simp_all
  then have le: "\<forall>x \<in> set (window rl k). x \<le> t" using assms(4) by (simp add: stamps_le_def)
  have cfg: "time_window rl = time_window rl0" "max_requests rl = max_requests rl0"
    using run_checks_time_window [of rl0 "es @ [(t, k)]"]
      run_checks_max_requests [of rl0 "es @ [(t, k)]"] assms(4) by simp_all
  have "\<forall>x \<in> set (window rl k). x \<le> t' - real_of_int (time_window rl)"
    using le assms(6) cfg by force
  then have "popleft_while (t' - real_of_int (time_window rl)) (window rl k) = []"
    by (rule popleft_while_all_old)
  then show ?thesis using assms(1) cfg by (simp add: fst_is_allowed)
qed

theorem admit_after_waiting_witness:
  "0 < max_requests rate_limiter \<and> requests rate_limiter = Map.empty \<and>
   sorted (map fst ([(0::real, ''u1''), (0, ''u1''), (0, ''u1''), (0, ''u1''), (0, ''u1'')] @ [(1, ''u1'')])) \<and>
   fst (run_checks rate_limiter
     ([(0, ''u1''), (0, ''u1''), (0, ''u1''), (0, ''u1''), (0, ''u1'')] @ [(1, ''u1'')]))
     = [True, True, True, True, True, False] \<and>
   (1::real) + real_of_int (time_window rate_limiter) < 62 \<and>
   fst (is_allowed 62 ''u1'' (snd (run_checks rate_limiter
     ([(0, ''u1''), (0, ''u1''), (0, ''u1''), (0, ''u1''), (0, ''u1'')] @ [(1, ''u1'')]))))"
proof -
  let ?es = "[(0::real, ''u1''), (0, ''u1''), (0, ''u1''), (0, ''u1''), (0, ''u1'')]"
  have h1: "0 < max_requests rate_limiter" and h2: "requests rate_limiter = Map.empty"
    and tw: "time_window rate_limiter = 60"
    by (simp_all add: rate_limiter_def RateLimiter_init_def)
  have h3: "sorted (map fst (?es @ [(1, ''u1'')]))" by simp
  have v: "fst (run_checks rate_limiter (?es @ [(1, ''u1'')])) = [True, True, True, True, True, False]"
    by (simp add: rate_limiter_def RateLimiter_init_def is_allowed_def dd_getitem_def Let_def)
  have h4: "run_checks rate_limiter (?es @ [(1, ''u1'')]) =
      (fst (run_checks rate_limiter (?es @ [(1, ''u1'')])), snd (run_checks rate_limiter (?es @ [(1, ''u1'')])))"
    by (rule prod.collapse [symmetric])
  have h5: "\<not> last (fst (run_checks rate_limiter (?es @ [(1, ''u1'')])))"
    unfolding v by simp
  have h6: "1 + real_of_int (time_window rate_limiter) < 62" by (simp add: tw)
  show ?thesis
    using admit_after_waiting [OF h1 h2 h3 h4 h5 h6] h1 h2 h3 v h6 by blast
qed

text \<open>
  C7. For a response of status 200 whose body is a JSON object: without
  \<^verbatim>\<open>candidates\<close>, with an empty list of candidates, with a first candidate without
  \<^verbatim>\<open>content\<close>, or with a content without \<^verbatim>\<open>parts\<close>, \<^verbatim>\<open>generate_content\<close> returns
  \<^verbatim>\<open>None\<close>; with an empty list of parts, or a first part without \<^verbatim>\<open>text\<close>, the
  lookup raises and the result is the generic message.
\<close>

theorem missing_field_results:
  assumes "status_code resp = 200" and "json_result resp = Inr (JObj kvs)"
  shows "(map_of kvs ''candidates'' = None \<longrightarrow> generate_content (Returned resp) = JNull) \<and>
         (map_of kvs ''candidates'' = Some (JArr []) \<longrightarrow> generate_content (Returned resp) = JNull) \<and>
         (map_of kvs ''candidates'' = Some (JArr (JObj c # cs)) \<and> map_of c ''content'' = None \<longrightarrow>
            generate_content (Returned resp) = JNull) \<and>
         (map_of kvs ''candidates'' = Some (JArr (JObj c # cs)) \<and>
          map_of c ''content'' = Some (JObj ct) \<and> map_of ct ''parts'' = None \<longrightarrow>
            generate_content (Returned resp) = JNull) \<and>
         (map_of kvs ''candidates'' = Some (JArr (JObj c # cs)) \<and>
          map_of c ''content'' = Some (JObj ct) \<and> map_of ct ''parts'' = Some (JArr []) \<longrightarrow>
            generate_content (Returned resp) = JStr msg_unexpected) \<and>
         (map_of kvs ''candidates'' = Some (JArr (JObj c # cs)) \<and>
          map_of c ''content'' = Some (JObj ct) \<and>
          map_of ct ''parts'' = Some (JArr (JObj p # ps)) \<and> map_of p ''text'' = None \<longrightarrow>
            generate_content (Returned resp) = JStr msg_unexpected)"
  using assms by (simp add: generate_content_200 extract_text_def)

theorem missing_field_results_witness:
  "generate_content (Returned \<lparr> status_code = 200,
     json_result = Inr (JObj [(''promptFeedback'', JObj [])]), body_text = [] \<rparr>) = JNull \<and>
   generate_content (Returned \<lparr> status_code = 200,
     json_result = Inr (JObj [(''candidates'', JArr [])]), body_text = [] \<rparr>) = JNull \<and>
   generate_content (Returned \<lparr> status_code = 200,
     json_result = Inr (JObj [(''candidates'', JArr [JObj [(''index'', JNum 0)]])]),
     body_text = [] \<rparr>) = JNull \<and>
   generate_content (Returned \<lparr> status_code = 200,
     json_result = Inr (JObj [(''candidates'',
        JArr [JObj [(''content'', JObj [(''role'', JStr ''model'')])]])]), body_text = [] \<rparr>)
     = JNull \<and>
   generate_content (Returned \<lparr> status_code = 200,
     json_result = Inr (JObj [(''candidates'',
        JArr [JObj [(''content'', JObj [(''parts'', JArr [])])]])]), body_text = [] \<rparr>)
     = JStr msg_unexpected \<and>
   generate_content (Returned \<lparr> status_code = 200,
     json_result = Inr (JObj [(''candidates'',
        JArr [JObj [(''content'', JObj [(''parts'', JArr [JObj [(''data'', JNum 1)]])])]])]),
     body_text = [] \<rparr>) = JStr msg_unexpected"
proof -
  have a: "generate_content (Returned \<lparr> status_code = 200,
     json_result = Inr (JObj [(''promptFeedback'', JObj [])]), body_text = [] \<rparr>) = JNull"
    using missing_field_results [of "\<lparr> status_code = 200,
     json_result = Inr (JObj [(''promptFeedback'', JObj [])]), body_text = [] \<rparr>"
     "[(''promptFeedback'', JObj [])]"] by simp
  have b: "generate_content (Returned \<lparr> status_code = 200,
     json_result = Inr (JObj [(''candidates'', JArr [])]), body_text = [] \<rparr>) = JNull"
    using missing_field_results [of "\<lparr> status_code = 200,
     json_result = Inr (JObj [(''candidates'', JArr [])]), body_text = [] \<rparr>"
     "[(''candidates'', JArr [])]"] by simp
  have c: "generate_content (Returned \<lparr> status_code = 200,
     json_result = Inr (JObj [(''candidates'', JArr [JObj [(''index'', JNum 0)]])]),
     body_text = [] \<rparr>) = JNull"
    using missing_field_results [of "\<lparr> status_code = 200,
     json_result = Inr (JObj [(''candidates'', JArr [JObj [(''index'', JNum 0)]])]),
     body_text = [] \<rparr>"
     "[(''candidates'', JArr [JObj [(''index'', JNum 0)]])]"
     "[(''index'', JNum 0)]" "[]"] by simp
  have d: "generate_content (Returned \<lparr> status_code = 200,
     json_result = Inr (JObj [(''candidates'',
        JArr [JObj [(''content'', JObj [(''role'', JStr ''model'')])]])]), body_text = [] \<rparr>)
     = JNull"
    using missing_field_results [of "\<lparr> status_code = 200,
     json_result = Inr (JObj [(''candidates'',
        JArr [JObj [(''content'', JObj [(''role'', JStr ''model'')])]])]), body_text = [] \<rparr>"
     "[(''candidates'', JArr [JObj [(''content'', JObj [(''role'', JStr ''model'')])]])]"
     "[(''content'', JObj [(''role'', JStr ''model'')])]" "[]"
     "[(''role'', JStr ''model'')]"] by simp
  have e: "generate_content (Returned \<lparr> status_code = 200,
     json_result = Inr (JObj [(''candidates'',
        JArr [JObj [(''content'', JObj [(''parts'', JArr [])])]])]), body_text = [] \<rparr>)
     = JStr msg_unexpected"
    using missing_field_results [of "\<lparr> status_code = 200,
     json_result = Inr (JObj [(''candidates'',
        JArr [JObj [(''content'', JObj [(''parts'', JArr [])])]])]), body_text = [] \<rparr>"
     "[(''candidates'', JArr [JObj [(''content'', JObj [(''parts'', JArr [])])]])]"
     "[(''content'', JObj [(''parts'', JArr [])])]" "[]" "[(''parts'', JArr [])]"] by simp
  have f: "generate_content (Returned \<lparr> status_code = 200,
     json_result = Inr (JObj [(''candidates'',
        JArr [JObj [(''content'', JObj [(''parts'', JArr [JObj [(''data'', JNum 1)]])])]])]),
     body_text = [] \<rparr>) = JStr msg_unexpected"
    using missing_field_results [of "\<lparr> status_code = 200,
     json_result = Inr (JObj [(''candidates'',
        JArr [JObj [(''content'', JObj [(''parts'', JArr [JObj [(''data'', JNum 1)]])])]])]),
     body_text = [] \<rparr>"
     "[(''candidates'',
        JArr [JObj [(''content'', JObj [(''parts'', JArr [JObj [(''data'', JNum 1)]])])]])]"
     "[(''content'', JObj [(''parts'', JArr [JObj [(''data'', JNum 1)]])])]" "[]"
     "[(''parts'', JArr [JObj [(''data'', JNum 1)]])]"
     "[(''data'', JNum 1)]" "[]"] by simp
  show ?thesis using a b c d e f by simp
qed

theorem blocked_candidate_counterexample:
  "generate_content (Returned \<lparr> status_code = 200,
     json_result = Inr (JObj [(''candidates'', JArr [JObj [(''finishReason'', JStr ''SAFETY'')]])]),
     body_text = [] \<rparr>) = JNull \<and>
   generate_content (Returned \<lparr> status_code = 200,
     json_result = Inr (JObj [(''candidates'', JArr [JObj [(''finishReason'', JStr ''SAFETY'')]])]),
     body_text = [] \<rparr>) \<noteq> JStr ''unexpected response from service''"
  by (simp add: generate_content_200 extract_text_def)

text \<open>
  C8. The defaults of the constructor are \<open>max_requests = 10\<close> and
  \<open>time_window = 60\<close>; the module-level instance is built with the explicit
  arguments 5 and 60; neither \<^verbatim>\<open>is_allowed\<close> nor \<^verbatim>\<open>get_retry_after\<close> changes
  either field. The claim's default of 5 for \<open>max_requests\<close> is the argument of the
  module-level instance, not the default of the constructor.
\<close>

theorem config_defaults_and_fixed:
  "max_requests (RateLimiter_init None None) = 10 \<and>
   time_window (RateLimiter_init None None) = 60 \<and>
   max_requests rate_limiter = 5 \<and>
   time_window rate_limiter = 60 \<and>
   max_requests (snd (is_allowed now key rl)) = max_requests rl \<and>
   time_window (snd (is_allowed now key rl)) = time_window rl \<and>
   max_requests (snd (get_retry_after now key rl)) = max_requests rl \<and>
   time_window (snd (get_retry_after now key rl)) = time_window rl"
  by (simp add: RateLimiter_init_def rate_limiter_def)

theorem default_max_requests_counterexample:
  "max_requests (RateLimiter_init None None) = 10 \<and>
   max_requests (RateLimiter_init None None) \<noteq> 5"
  by (simp add: RateLimiter_init_def)

text \<open>
  C9. For a key that the dictionary does not hold, both \<^verbatim>\<open>is_allowed\<close> and
  \<^verbatim>\<open>get_retry_after\<close> leave the dictionary with exactly that key added;
  \<^verbatim>\<open>get_retry_after\<close> binds it to an empty deque and returns 0.
\<close>

theorem unseen_key_inserted:
  assumes "requests rl key = None"
  shows "dom (requests (snd (is_allowed now key rl))) = insert key (dom (requests rl)) \<and>
         dom (requests (snd (get_retry_after now key rl))) = insert key (dom (requests rl)) \<and>
         requests (snd (get_retry_after now key rl)) key = Some [] \<and>
         fst (get_retry_after now key rl) = 0"
  using assms
  by (simp add: is_allowed_def get_retry_after_def dd_getitem_def Let_def)

theorem unseen_key_inserted_witness:
  "requests rate_limiter ''u1'' = None \<and>
   dom (requests (snd (is_allowed 0 ''u1'' rate_limiter))) = {''u1''} \<and>
   dom (requests (snd (get_retry_after 0 ''u1'' rate_limiter))) = {''u1''} \<and>
   requests (snd (get_retry_after 0 ''u1'' rate_limiter)) ''u1'' = Some [] \<and>
   fst (get_retry_after 0 ''u1'' rate_limiter) = 0"
proof -
  have h: "requests rate_limiter ''u1'' = None"
    by (simp add: rate_limiter_def RateLimiter_init_def)
  have d: "dom (requests rate_limiter) = {}"
    by (simp add: rate_limiter_def RateLimiter_init_def)
  show ?thesis
    using unseen_key_inserted [OF h, of 0] h d by simp
qed

text \<open>
  C10. Let every timestamp in the deque of the key be at most \<open>now\<close>, and let
  \<open>time_window\<close> be non-negative (the configuration is a positive integer). Then
  \<^verbatim>\<open>get_retry_after\<close> returns an integer between 0 and \<open>time_window\<close>; it returns 0
  when the deque is empty or the key absent; and it leaves every deque as it was,
  every binding of the dictionary included.
\<close>

theorem retry_after_range:
  assumes "\<forall>t \<in> set (window rl key). t \<le> now" and "0 \<le> time_window rl"
  shows "0 \<le> fst (get_retry_after now key rl) \<and>
         fst (get_retry_after now key rl) \<le> time_window rl \<and>
         (window rl key = [] \<longrightarrow> fst (get_retry_after now key rl) = 0) \<and>
         (\<forall>k. window (snd (get_retry_after now key rl)) k = window rl k) \<and>
         (\<forall>k q. requests rl k = Some q \<longrightarrow> requests (snd (get_retry_after now key rl)) k = Some q)"
proof -
  have a: "0 \<le> fst (get_retry_after now key rl)"
    by (simp add: fst_get_retry_after split: list.splits)
  have b: "fst (get_retry_after now key rl) \<le> time_window rl"
  proof (cases "window rl key")
    case Nil
    then show ?thesis using assms(2) by (simp add: fst_get_retry_after)
  next
    case (Cons t0 ts)
    then have "t0 \<le> now" using assms(1) by simp
    then have "real_of_int (time_window rl) - (now - t0) \<le> real_of_int (time_window rl)" by simp
    then have "py_int (real_of_int (time_window rl) - (now - t0)) \<le> time_window rl"
      using assms(2) by (rule py_int_le)
    then show ?thesis using Cons assms(2) by (simp add: fst_get_retry_after)
  qed
  have c: "window rl key = [] \<longrightarrow> fst (get_retry_after now key rl) = 0"
    by (simp add: fst_get_retry_after)
  have d: "\<forall>k. window (snd (get_retry_after now key rl)) k = window rl k"
    by (simp add: window_get_retry_after)
  have e: "\<forall>k q. requests rl k = Some q \<longrightarrow> requests (snd (get_retry_after now key rl)) k = Some q"
    by (auto simp: get_retry_after_def dd_getitem_def Let_def split: option.splits list.splits)
  from a b c d e show ?thesis by blast
qed

theorem retry_after_range_witness:
  "window (snd (is_allowed 0 ''u1'' rate_limiter)) ''u1'' = [0] \<and>
   0 \<le> time_window (snd (is_allowed 0 ''u1'' rate_limiter)) \<and>
   fst (get_retry_after 1 ''u1'' (snd (is_allowed 0 ''u1'' rate_limiter))) = 59 \<and>
   0 \<le> fst (get_retry_after 1 ''u1'' (snd (is_allowed 0 ''u1'' rate_limiter))) \<and>
   fst (get_retry_after 1 ''u1'' (snd (is_allowed 0 ''u1'' rate_limiter))) \<le> 60 \<and>
   window (snd (get_retry_after 1 ''u1'' (snd (is_allowed 0 ''u1'' rate_limiter)))) ''u1'' = [0] \<and>
   window (snd (is_allowed 0 ''u1'' rate_limiter)) ''u2'' = [] \<and>
   fst (get_retry_after 1 ''u2'' (snd (is_allowed 0 ''u1'' rate_limiter))) = 0"
proof -
  define rl where "rl = snd (is_allowed 0 ''u1'' rate_limiter)"
  have w: "window rl ''u1'' = [0]"
    by (simp add: rl_def rate_limiter_def RateLimiter_init_def is_allowed_def dd_getitem_def
        window_def Let_def)
  have tw: "time_window rl = 60"
    by (simp add: rl_def rate_limiter_def RateLimiter_init_def)
  have h1: "\<forall>t \<in> set (window rl ''u1''). t \<le> 1" by (simp add: w)
  have h2: "0 \<le> time_window rl" by (simp add: tw)
  have v: "fst (get_retry_after 1 ''u1'' rl) = 59"
    by (simp add: fst_get_retry_after w tw py_int_def)
  have w2: "window rl ''u2'' = []"
    by (simp add: rl_def rate_limiter_def RateLimiter_init_def is_allowed_def dd_getitem_def
        window_def Let_def)
  have h3: "\<forall>t \<in> set (window rl ''u2''). t \<le> 1" by (simp add: w2)
  show ?thesis
    using retry_after_range [OF h1 h2] retry_after_range [OF h3 h2] w w2 tw v
    unfolding rl_def by simp
qed

end
